theory Spec2Isabelle
  imports Main "HOL-Library.Word" "HOL-Library.Multiset"
begin

section \<open>JavaScript values\<close>

text \<open>
  A JavaScript string is a sequence of UTF-16 code units. Literals of the source are
  written \<open>js ''...''\<close>. All literals of the program are ASCII.
\<close>

type_synonym code_unit = "16 word"
type_synonym jsstring = "code_unit list"

definition js :: "string \<Rightarrow> jsstring" where
  "js s = map of_char s"

text \<open>\<^verbatim>\<open>s.startsWith(p)\<close>\<close>

definition startsWith :: "jsstring \<Rightarrow> jsstring \<Rightarrow> bool" where
  "startsWith s p = (take (length p) s = p)"

text \<open>
  \<^verbatim>\<open>xs.slice(start)\<close>: a negative start counts from the end, and the start is clamped
  to the bounds of the array.
\<close>

definition slice_from :: "int \<Rightarrow> 'a list \<Rightarrow> 'a list" where
  "slice_from start xs =
     (let len = int (length xs);
          k = (if start < 0 then max (len + start) 0 else min start len)
      in drop (nat k) xs)"

text \<open>\<^verbatim>\<open>xs[i]\<close>: \<open>None\<close> stands for \<^verbatim>\<open>undefined\<close>.\<close>

definition at_index :: "'a list \<Rightarrow> nat \<Rightarrow> 'a option" where
  "at_index xs i = (if i < length xs then Some (xs ! i) else None)"

text \<open>
  \<^verbatim>\<open>s.split(sep)\<close> for a separator of one code unit. The result always has at least one
  segment, so \<^verbatim>\<open>s.split('.')[0]\<close> is defined for every string.
\<close>

fun js_split :: "code_unit \<Rightarrow> jsstring \<Rightarrow> jsstring list" where
  "js_split sep [] = [[]]"
| "js_split sep (c # cs) =
     (if c = sep then [] # js_split sep cs
      else (case js_split sep cs of
              [] \<Rightarrow> [[c]]
            | w # ws \<Rightarrow> (c # w) # ws))"

definition first_segment :: "jsstring \<Rightarrow> jsstring" where
  "first_segment s = (case js_split 0x2E s of [] \<Rightarrow> js ''undefined'' | w # _ \<Rightarrow> w)"

text \<open>
  \<^verbatim>\<open>s.trim()\<close> removes leading and trailing white space and line terminators
  (ECMAScript \<open>WhiteSpace\<close> and \<open>LineTerminator\<close>; all of them are single code units).
\<close>

definition is_trimmed_unit :: "code_unit \<Rightarrow> bool" where
  "is_trimmed_unit c \<longleftrightarrow>
     c \<in> {0x0009, 0x000A, 0x000B, 0x000C, 0x000D, 0x0020, 0x00A0, 0x1680,
          0x2000, 0x2001, 0x2002, 0x2003, 0x2004, 0x2005, 0x2006, 0x2007,
          0x2008, 0x2009, 0x200A, 0x2028, 0x2029, 0x202F, 0x205F, 0x3000, 0xFEFF}"

definition trim :: "jsstring \<Rightarrow> jsstring" where
  "trim s = rev (dropWhile is_trimmed_unit (rev (dropWhile is_trimmed_unit s)))"

text \<open>The decimal digits of a non-negative integer, as a template literal prints it.\<close>

fun toString :: "nat \<Rightarrow> jsstring" where
  "toString n =
     (if n < 10 then [0x30 + of_nat n]
      else toString (n div 10) @ [0x30 + of_nat (n mod 10)])"

declare toString.simps [simp del]


section \<open>Data model (types.ts)\<close>

datatype AppMode =
    OneModelNOutfits
  | NModelsOneOutfit
  | Editor
  | Generator
  | PosterPlacement

text \<open>
  A browser \<open>File\<close>: the program reads its MIME type and its name; the payload is
  carried along.
\<close>

record File =
  type :: jsstring
  name :: jsstring
  payload :: "8 word list"

record ImageFile =
  file' :: File
  preview :: jsstring
  name :: jsstring

record ResultImage =
  src :: jsstring
  name :: jsstring


section \<open>The upload slot (ImageUploader)\<close>

text \<open>
  The props of an upload slot. \<open>limit\<close> is optional (\<open>None\<close> is \<^verbatim>\<open>undefined\<close>).
  The callback \<open>onFilesChange\<close> is modelled by the log \<open>filesChanged\<close> of the arguments
  it was called with.
\<close>

record ImageUploaderProps =
  multiple :: bool
  limit :: "int option"

record ImageUploader =
  dragActive :: bool
  uploadedFiles :: "ImageFile list"
  filesChanged :: "ImageFile list list"

text \<open>
  The object passed to \<open>map\<close> in \<open>handleFiles\<close>. \<^verbatim>\<open>URL.createObjectURL\<close> is a browser
  function and a parameter of the model.
\<close>

definition toImageFile :: "(File \<Rightarrow> jsstring) \<Rightarrow> File \<Rightarrow> ImageFile" where
  "toImageFile createObjectURL f =
     \<lparr>file' = f, preview = createObjectURL f, name = File.name f\<rparr>"

definition isImageType :: "File \<Rightarrow> bool" where
  "isImageType f = startsWith (type f) (js ''image/'')"

text \<open>
  \<open>handleFiles\<close>: the argument is \<^verbatim>\<open>FileList | null\<close>. The condition \<^verbatim>\<open>limit && ...\<close>
  is false for an undefined limit and for the limit 0.
\<close>

definition handleFiles ::
  "(File \<Rightarrow> jsstring) \<Rightarrow> ImageUploaderProps \<Rightarrow> File list option \<Rightarrow> ImageUploader \<Rightarrow> ImageUploader"
where
  "handleFiles createObjectURL props files st =
     (case files of
        None \<Rightarrow> st
      | Some fs \<Rightarrow>
          (let newImageFiles = map (toImageFile createObjectURL) (filter isImageType fs) in
           if length newImageFiles = 0 then st
           else
             (let updatedFiles =
                (if multiple props then
                   (let updatedFiles = uploadedFiles st @ newImageFiles in
                    (case limit props of
                       None \<Rightarrow> updatedFiles
                     | Some l \<Rightarrow>
                         if l \<noteq> 0 \<and> int (length updatedFiles) > l
                         then slice_from (int (length updatedFiles) - l) updatedFiles
                         else updatedFiles))
                 else slice_from (- 1) newImageFiles)
              in st\<lparr>uploadedFiles := updatedFiles,
                    filesChanged := filesChanged st @ [updatedFiles]\<rparr>)))"

text \<open>\<open>removeFile\<close>: every entry with the given name is removed.\<close>

definition removeFile :: "jsstring \<Rightarrow> ImageUploader \<Rightarrow> ImageUploader" where
  "removeFile fileName st =
     (let newFiles = filter (\<lambda>f. ImageFile.name f \<noteq> fileName) (uploadedFiles st)
      in st\<lparr>uploadedFiles := newFiles, filesChanged := filesChanged st @ [newFiles]\<rparr>)"

text \<open>Sample values used in the concrete instances below.\<close>

definition sampleURL :: "File \<Rightarrow> jsstring" where
  "sampleURL f = js ''blob:'' @ File.name f"

definition pngFile :: "string \<Rightarrow> File" where
  "pngFile n = \<lparr>type = js ''image/png'', name = js n, payload = []\<rparr>"

definition textFile :: "string \<Rightarrow> File" where
  "textFile n = \<lparr>type = js ''text/plain'', name = js n, payload = []\<rparr>"

definition emptyUploader :: ImageUploader where
  "emptyUploader = \<lparr>dragActive = False, uploadedFiles = [], filesChanged = []\<rparr>"



section \<open>The application state (App)\<close>

text \<open>
  The remote image operations live in \<^verbatim>\<open>services/geminiService\<close>, outside the program
  text at hand. A call is recorded as a \<open>request\<close>; an argument that the program reads
  with \<^verbatim>\<open>xs[0]\<close> may be \<^verbatim>\<open>undefined\<close> (\<open>None\<close>). The service is a parameter: it
  answers the request issued after \<open>n\<close> earlier calls with \<open>Some\<close> display handle, or
  with \<open>None\<close> when the promise is rejected.
\<close>

datatype request =
    VirtualTryOn "ImageFile option" "ImageFile option" jsstring
  | EditImage "ImageFile option" jsstring
  | GenerateImage jsstring
  | PosterOnWall ImageFile jsstring

datatype exn = Rejected | TypeError

type_synonym service = "nat \<Rightarrow> request \<Rightarrow> jsstring option"

text \<open>
  The state hooks of \<open>App\<close>, and what the program does to the outside: the remote calls
  issued so far with their answers (\<open>issued\<close>), the errors written with
  \<^verbatim>\<open>console.error\<close> and the alerts shown.
\<close>

record App =
  mode :: AppMode
  models :: "ImageFile list"
  outfits :: "ImageFile list"
  baseImage :: "ImageFile list"
  poster :: "ImageFile list"
  prompt :: jsstring
  results :: "ResultImage list"
  isLoading :: bool
  loadingMessage :: jsstring
  issued :: "(request \<times> jsstring option) list"
  consoleErrors :: "exn list"
  alerts :: "jsstring list"

definition tryOnPrompt :: jsstring where
  "tryOnPrompt = js ''Create a photorealistic image of the model wearing the outfit. Match the lighting, shadows, and style for a seamless composition.''"

definition initialApp :: App where
  "initialApp =
     \<lparr>mode = OneModelNOutfits, models = [], outfits = [], baseImage = [], poster = [],
      prompt = tryOnPrompt, results = [], isLoading = False, loadingMessage = js '''',
      issued = [], consoleErrors = [], alerts = []\<rparr>"

text \<open>A computation of the program: it may throw, and it changes the state either way.\<close>

type_synonym 'a comp = "App \<Rightarrow> (exn + 'a) \<times> App"

text \<open>\<^verbatim>\<open>await f(...)\<close> for a remote operation: the call is issued, then its answer awaited.\<close>

definition await_call :: "service \<Rightarrow> request \<Rightarrow> jsstring comp" where
  "await_call svc req s =
     (let answer = svc (length (issued s)) req;
          s' = s\<lparr>issued := issued s @ [(req, answer)]\<rparr>
      in (case answer of
            None \<Rightarrow> (Inl Rejected, s')
          | Some resultSrc \<Rightarrow> (Inr resultSrc, s')))"

definition generateVirtualTryOn ::
  "service \<Rightarrow> ImageFile option \<Rightarrow> ImageFile option \<Rightarrow> jsstring \<Rightarrow> jsstring comp" where
  "generateVirtualTryOn svc model outfit p = await_call svc (VirtualTryOn model outfit p)"

definition editImage :: "service \<Rightarrow> ImageFile option \<Rightarrow> jsstring \<Rightarrow> jsstring comp" where
  "editImage svc img p = await_call svc (EditImage img p)"

definition generateImage :: "service \<Rightarrow> jsstring \<Rightarrow> jsstring comp" where
  "generateImage svc p = await_call svc (GenerateImage p)"

definition placePosterOnWall :: "service \<Rightarrow> ImageFile \<Rightarrow> jsstring \<Rightarrow> jsstring comp" where
  "placePosterOnWall svc img p = await_call svc (PosterOnWall img p)"

text \<open>
  \<^verbatim>\<open>for (const [index, x] of xs.entries()) { ... }\<close> with the array \<open>generatedResults\<close>
  as accumulator: the body runs on each entry in order, and a throw ends the loop.
\<close>

fun for_entries ::
  "(nat \<Rightarrow> 'a \<Rightarrow> 'b \<Rightarrow> 'b comp) \<Rightarrow> nat \<Rightarrow> 'a list \<Rightarrow> 'b \<Rightarrow> 'b comp" where
  "for_entries body index [] acc s = (Inr acc, s)"
| "for_entries body index (x # xs) acc s =
     (case body index x acc s of
        (Inl e, s') \<Rightarrow> (Inl e, s')
      | (Inr acc', s') \<Rightarrow> for_entries body (Suc index) xs acc' s')"

definition generatingMessage :: "nat \<Rightarrow> nat \<Rightarrow> jsstring" where
  "generatingMessage n k =
     js ''Generating '' @ toString n @ js '' images... ('' @ toString k @ js '' of ''
       @ toString n @ js '')''"

definition placingMessage :: "nat \<Rightarrow> nat \<Rightarrow> jsstring" where
  "placingMessage n k =
     js ''Placing '' @ toString n @ js '' posters... ('' @ toString k @ js '' of ''
       @ toString n @ js '')''"

definition tryOnName :: "ImageFile \<Rightarrow> ImageFile \<Rightarrow> jsstring" where
  "tryOnName model outfit =
     first_segment (ImageFile.name model) @ js ''_'' @ first_segment (ImageFile.name outfit)
       @ js ''.png''"

text \<open>
  The loop bodies of \<open>handleGenerate\<close>. Reading \<^verbatim>\<open>models[0].name\<close> when \<open>models\<close> is
  empty throws a \<open>TypeError\<close>, after the call has been issued with \<^verbatim>\<open>undefined\<close>.
\<close>

definition tryOnOutfit :: "service \<Rightarrow> nat \<Rightarrow> ImageFile \<Rightarrow> ResultImage list \<Rightarrow> ResultImage list comp"
where
  "tryOnOutfit svc index outfit generatedResults s =
     (let s1 = s\<lparr>loadingMessage := generatingMessage (length (outfits s)) (index + 1)\<rparr> in
      (case generateVirtualTryOn svc (at_index (models s) 0) (Some outfit) (prompt s) s1 of
         (Inl e, s2) \<Rightarrow> (Inl e, s2)
       | (Inr resultSrc, s2) \<Rightarrow>
           (case at_index (models s) 0 of
              None \<Rightarrow> (Inl TypeError, s2)
            | Some model0 \<Rightarrow>
                (Inr (generatedResults @ [\<lparr>src = resultSrc, name = tryOnName model0 outfit\<rparr>]),
                 s2))))"

definition tryOnModel :: "service \<Rightarrow> nat \<Rightarrow> ImageFile \<Rightarrow> ResultImage list \<Rightarrow> ResultImage list comp"
where
  "tryOnModel svc index model generatedResults s =
     (let s1 = s\<lparr>loadingMessage := generatingMessage (length (models s)) (index + 1)\<rparr> in
      (case generateVirtualTryOn svc (Some model) (at_index (outfits s) 0) (prompt s) s1 of
         (Inl e, s2) \<Rightarrow> (Inl e, s2)
       | (Inr resultSrc, s2) \<Rightarrow>
           (case at_index (outfits s) 0 of
              None \<Rightarrow> (Inl TypeError, s2)
            | Some outfit0 \<Rightarrow>
                (Inr (generatedResults @ [\<lparr>src = resultSrc, name = tryOnName model outfit0\<rparr>]),
                 s2))))"

definition placePoster :: "service \<Rightarrow> nat \<Rightarrow> ImageFile \<Rightarrow> ResultImage list \<Rightarrow> ResultImage list comp"
where
  "placePoster svc index p generatedResults s =
     (let s1 = s\<lparr>loadingMessage := placingMessage (length (poster s)) (index + 1)\<rparr> in
      (case placePosterOnWall svc p (prompt s) s1 of
         (Inl e, s2) \<Rightarrow> (Inl e, s2)
       | (Inr resultSrc, s2) \<Rightarrow>
           (Inr (generatedResults @
                   [\<lparr>src = resultSrc, name = js ''poster_in_room_'' @ ImageFile.name p\<rparr>]),
            s2)))"

text \<open>The \<^verbatim>\<open>try\<close> block of \<open>handleGenerate\<close>, one branch per mode.\<close>

definition tryBlock :: "service \<Rightarrow> unit comp" where
  "tryBlock svc s =
     (case mode s of
        OneModelNOutfits \<Rightarrow>
          (let s1 = s\<lparr>loadingMessage := generatingMessage (length (outfits s)) 1\<rparr> in
           (case for_entries (tryOnOutfit svc) 0 (outfits s) [] s1 of
              (Inl e, s2) \<Rightarrow> (Inl e, s2)
            | (Inr generatedResults, s2) \<Rightarrow> (Inr (), s2\<lparr>results := generatedResults\<rparr>)))
      | NModelsOneOutfit \<Rightarrow>
          (let s1 = s\<lparr>loadingMessage := generatingMessage (length (models s)) 1\<rparr> in
           (case for_entries (tryOnModel svc) 0 (models s) [] s1 of
              (Inl e, s2) \<Rightarrow> (Inl e, s2)
            | (Inr generatedResults, s2) \<Rightarrow> (Inr (), s2\<lparr>results := generatedResults\<rparr>)))
      | Editor \<Rightarrow>
          (let s1 = s\<lparr>loadingMessage := js ''Editing your image...''\<rparr> in
           (case editImage svc (at_index (baseImage s) 0) (prompt s) s1 of
              (Inl e, s2) \<Rightarrow> (Inl e, s2)
            | (Inr resultSrc, s2) \<Rightarrow>
                (case at_index (baseImage s) 0 of
                   None \<Rightarrow> (Inl TypeError, s2)
                 | Some image0 \<Rightarrow>
                     (Inr (), s2\<lparr>results :=
                        [\<lparr>src = resultSrc, name = js ''edited_'' @ ImageFile.name image0\<rparr>]\<rparr>))))
      | Generator \<Rightarrow>
          (let s1 = s\<lparr>loadingMessage := js ''Generating your masterpiece...''\<rparr> in
           (case generateImage svc (prompt s) s1 of
              (Inl e, s2) \<Rightarrow> (Inl e, s2)
            | (Inr resultSrc, s2) \<Rightarrow>
                (Inr (), s2\<lparr>results := [\<lparr>src = resultSrc, name = js ''generated_image.png''\<rparr>]\<rparr>)))
      | PosterPlacement \<Rightarrow>
          (let s1 = s\<lparr>loadingMessage := placingMessage (length (poster s)) 1\<rparr> in
           (case for_entries (placePoster svc) 0 (poster s) [] s1 of
              (Inl e, s2) \<Rightarrow> (Inl e, s2)
            | (Inr generatedResults, s2) \<Rightarrow> (Inr (), s2\<lparr>results := generatedResults\<rparr>))))"

text \<open>
  \<open>handleGenerate\<close>: the loading flag is set and the results are cleared, the \<^verbatim>\<open>try\<close>
  block runs, a throw is caught (logged, and an alert shown), and the \<^verbatim>\<open>finally\<close> block
  clears the loading flag and the progress message.
\<close>

definition handleGenerate :: "service \<Rightarrow> App \<Rightarrow> App" where
  "handleGenerate svc s =
     (let s1 = s\<lparr>isLoading := True\<rparr>;
          s2 = s1\<lparr>results := []\<rparr>;
          s4 = (case tryBlock svc s2 of
                  (Inl error, s3) \<Rightarrow>
                    s3\<lparr>consoleErrors := consoleErrors s3 @ [error],
                       alerts := alerts s3 @
                         [js ''An error occurred during generation. Check the console for details.'']\<rparr>
                | (Inr _, s3) \<Rightarrow> s3)
      in s4\<lparr>isLoading := False, loadingMessage := js ''''\<rparr>)"

definition handleModeChange :: "AppMode \<Rightarrow> App \<Rightarrow> App" where
  "handleModeChange newMode s =
     (let s1 = s\<lparr>mode := newMode, results := [], models := [], outfits := [],
                 baseImage := [], poster := []\<rparr>
      in if newMode = Editor then
           s1\<lparr>prompt := js ''Add a retro filter to this image.''\<rparr>
         else if newMode = Generator then
           s1\<lparr>prompt := js ''A vibrant, photorealistic image of a futuristic city at sunset.''\<rparr>
         else if newMode = PosterPlacement then
           s1\<lparr>prompt := js ''Place this poster on a wall in a cozy bedroom, next to the bed. The poster should be frameless and blend naturally with the room's lighting and perspective.''\<rparr>
         else
           s1\<lparr>prompt := js ''Create a photorealistic image of the model wearing the outfit. Match the lighting, shadows, and style for a seamless composition.''\<rparr>)"

definition isGenerateButtonDisabled :: "App \<Rightarrow> bool" where
  "isGenerateButtonDisabled s =
     (if isLoading s then True
      else (case mode s of
              OneModelNOutfits \<Rightarrow> length (models s) = 0 \<or> length (outfits s) = 0
            | NModelsOneOutfit \<Rightarrow> length (models s) = 0 \<or> length (outfits s) = 0
            | Editor \<Rightarrow> length (baseImage s) = 0 \<or> trim (prompt s) = js ''''
            | Generator \<Rightarrow> trim (prompt s) = js ''''
            | PosterPlacement \<Rightarrow> length (poster s) = 0 \<or> trim (prompt s) = js ''''))"



section \<open>Packaging (utils/fileUtils.ts)\<close>

subsection \<open>The archive object of JSZip\<close>

text \<open>
  \<open>downloadAllAsZip\<close> builds the archive with the library JSZip, which the page loads
  beside the program (\<^verbatim>\<open>declare var JSZip: any\<close>); the program calls \<^verbatim>\<open>generateAsync\<close>,
  which is the interface of JSZip 3. What follows is \<^verbatim>\<open>zip.file(name, data)\<close> of that
  library with its default options. The archive object keeps its entries in
  \<^verbatim>\<open>this.files\<close>, one per name: \<^verbatim>\<open>this.files[name] = object\<close> replaces an entry of the
  same name. Before a file is stored, the folders that its name lies in are added as
  entries of their own, unless they exist already.
\<close>

datatype 'b ZipObject = ZipFile 'b | ZipFolder

type_synonym 'b JSZip = "jsstring \<rightharpoonup> 'b ZipObject"

text \<open>\<^verbatim>\<open>s.lastIndexOf(c)\<close>, which is \<open>-1\<close> when \<open>c\<close> does not occur.\<close>

fun lastIndexOf :: "code_unit \<Rightarrow> jsstring \<Rightarrow> int" where
  "lastIndexOf c [] = - 1"
| "lastIndexOf c (x # xs) =
     (let k = lastIndexOf c xs
      in if 0 \<le> k then k + 1 else if x = c then 0 else - 1)"

definition forceTrailingSlash :: "jsstring \<Rightarrow> jsstring" where
  "forceTrailingSlash path =
     (if path \<noteq> [] \<and> last path = 0x2F then path else path @ [0x2F])"

definition parentFolder :: "jsstring \<Rightarrow> jsstring" where
  "parentFolder path =
     (let path' = (if path \<noteq> [] \<and> last path = 0x2F then butlast path else path);
          lastSlash = lastIndexOf 0x2F path'
      in if 0 < lastSlash then take (nat lastSlash) path' else [])"

text \<open>
  \<open>folderAdd\<close>, with the call of \<open>fileAdd\<close> for a folder written out: the folder's own
  parent is added first.
\<close>

function folderAdd :: "jsstring \<Rightarrow> 'b JSZip \<Rightarrow> 'b JSZip" where
  "folderAdd path files =
     (let path' = forceTrailingSlash path
      in if files path' \<noteq> None then files
         else (let parent = parentFolder path';
                   files1 = (if parent \<noteq> [] then folderAdd parent files else files)
               in files1(path' \<mapsto> ZipFolder)))"
  by pat_completeness auto

text \<open>\<open>fileAdd\<close> for a file: \<^verbatim>\<open>zip.file(name, data)\<close> on an archive whose root is empty.\<close>

definition fileAdd :: "jsstring \<Rightarrow> 'b \<Rightarrow> 'b JSZip \<Rightarrow> 'b JSZip" where
  "fileAdd path data files =
     (let parent = parentFolder path;
          files1 = (if parent \<noteq> [] then folderAdd parent files else files)
      in files1(path \<mapsto> ZipFile data))"

subsection \<open>downloadAllAsZip\<close>

text \<open>
  What \<open>downloadAllAsZip\<close> does to the outside: the URLs passed to \<^verbatim>\<open>fetch\<close>, the messages
  written with \<^verbatim>\<open>console.error\<close>, the archives handed to \<^verbatim>\<open>generateAsync\<close> and the
  downloads started.
\<close>

record ('b, 'c) Browser =
  fetchCalls :: "jsstring list"
  consoleLog :: "jsstring list"
  archives :: "'b JSZip list"
  downloads :: "(jsstring \<times> 'c) list"

definition failedMessage :: "jsstring \<Rightarrow> jsstring" where
  "failedMessage n = js ''Failed to fetch image '' @ n @ js '':''"

text \<open>
  The callback of \<^verbatim>\<open>images.map\<close> for the item at index \<open>i\<close>, from the point where its
  fetch settles: the blob is read and stored in the archive under the item's name, or the
  failure of either step is caught and logged. \<open>fetch\<close>, the reading of a blob and
  \<open>generateAsync\<close> belong to the browser and to JSZip, and are parameters.
\<close>

definition settle ::
  "(nat \<Rightarrow> jsstring \<Rightarrow> 'r option) \<Rightarrow> ('r \<Rightarrow> 'b option) \<Rightarrow> ResultImage list \<Rightarrow> nat \<Rightarrow>
   'b JSZip \<times> jsstring list \<Rightarrow> 'b JSZip \<times> jsstring list" where
  "settle fetch blob images i st =
     (case st of (jszip, logged) \<Rightarrow>
        (case at_index images i of
           None \<Rightarrow> (jszip, logged)
         | Some img \<Rightarrow>
             (case fetch i (src img) of
                None \<Rightarrow> (jszip, logged @ [failedMessage (ResultImage.name img)])
              | Some response \<Rightarrow>
                  (case blob response of
                     None \<Rightarrow> (jszip, logged @ [failedMessage (ResultImage.name img)])
                   | Some b \<Rightarrow> (fileAdd (ResultImage.name img) b jszip, logged)))))"

text \<open>
  \<open>downloadAllAsZip\<close>. Every callback runs up to its \<^verbatim>\<open>await fetch(...)\<close> at once, so
  the fetches are issued in the order of the list; the callbacks then finish in an order
  that the network decides, given by \<open>order\<close>, a list of the indices. \<^verbatim>\<open>Promise.all\<close>
  waits for all of them before the archive is generated.
\<close>

definition downloadAllAsZip ::
  "(nat \<Rightarrow> jsstring \<Rightarrow> 'r option) \<Rightarrow> ('r \<Rightarrow> 'b option) \<Rightarrow> ('b JSZip \<Rightarrow> 'c option) \<Rightarrow>
   nat list \<Rightarrow> ResultImage list \<Rightarrow> ('b, 'c) Browser \<Rightarrow> ('b, 'c) Browser" where
  "downloadAllAsZip fetch blob generateAsync order images w =
     (if length images = 0 then w
      else
        (let w1 = w\<lparr>fetchCalls := fetchCalls w @ map src images\<rparr>;
             settled = fold (settle fetch blob images) order (Map.empty, []);
             jszip = fst settled;
             w2 = w1\<lparr>consoleLog := consoleLog w1 @ snd settled\<rparr>;
             w3 = w2\<lparr>archives := archives w2 @ [jszip]\<rparr>
         in (case generateAsync jszip of
               None \<Rightarrow> w3
             | Some content \<Rightarrow>
                 w3\<lparr>downloads := downloads w3 @ [(js ''virtual-try-on-results.zip'', content)]\<rparr>)))"


section \<open>The terms of the specification\<close>

text \<open>
  The stem of a name, as the specification words it: the name with everything from the
  first dot on removed.
\<close>

definition stem :: "jsstring \<Rightarrow> jsstring" where
  "stem n = takeWhile (\<lambda>c. c \<noteq> of_char CHR ''.'') n"

text \<open>
  When a run may start, as the specification words it. An instruction is non-empty when
  something is left of it after trimming.
\<close>

definition spec_run_may_start :: "App \<Rightarrow> bool" where
  "spec_run_may_start s \<longleftrightarrow>
     \<not> isLoading s \<and>
     (case mode s of
        OneModelNOutfits \<Rightarrow> models s \<noteq> [] \<and> outfits s \<noteq> []
      | NModelsOneOutfit \<Rightarrow> models s \<noteq> [] \<and> outfits s \<noteq> []
      | Editor \<Rightarrow> baseImage s \<noteq> [] \<and> trim (prompt s) \<noteq> []
      | Generator \<Rightarrow> trim (prompt s) \<noteq> []
      | PosterPlacement \<Rightarrow> poster s \<noteq> [] \<and> trim (prompt s) \<noteq> [])"

text \<open>The number of work units of a run, by the table of work plans.\<close>

definition unit_count :: "App \<Rightarrow> nat" where
  "unit_count s =
     (case mode s of
        OneModelNOutfits \<Rightarrow> length (outfits s)
      | NModelsOneOutfit \<Rightarrow> length (models s)
      | Editor \<Rightarrow> 1
      | Generator \<Rightarrow> 1
      | PosterPlacement \<Rightarrow> length (poster s))"

text \<open>The remote calls that a run adds to the calls issued before it.\<close>

definition new_calls :: "service \<Rightarrow> App \<Rightarrow> (request \<times> jsstring option) list" where
  "new_calls svc s = drop (length (issued s)) (issued (handleGenerate svc s))"

text \<open>What the fetch of item \<open>i\<close> delivers: its blob, or \<open>None\<close> when a step of it fails.\<close>

definition retrieved ::
  "(nat \<Rightarrow> jsstring \<Rightarrow> 'r option) \<Rightarrow> ('r \<Rightarrow> 'b option) \<Rightarrow> ResultImage list \<Rightarrow> nat \<Rightarrow> 'b option" where
  "retrieved fetch blob images i =
     (case fetch i (src (images ! i)) of None \<Rightarrow> None | Some response \<Rightarrow> blob response)"

text \<open>
  Invariants used in the proofs. A list of calls is fail-fast for an outcome when all
  calls succeeded, or the outcome is a throw and all calls but the last succeeded.
\<close>

definition fail_fast :: "(exn + 'a) \<Rightarrow> (request \<times> jsstring option) list \<Rightarrow> bool" where
  "fail_fast r new \<longleftrightarrow>
     (case r of
        Inr _ \<Rightarrow> \<forall>c \<in> set new. snd c \<noteq> None
      | Inl _ \<Rightarrow> \<forall>c \<in> set (butlast new). snd c \<noteq> None)"

definition one_call :: "'a comp \<Rightarrow> bool" where
  "one_call f \<longleftrightarrow>
     (\<forall>s r s'. f s = (r, s') \<longrightarrow>
        (\<exists>new. issued s' = issued s @ new \<and> length new \<le> 1 \<and> fail_fast r new \<and>
               results s' = results s))"


section \<open>Sample values\<close>

definition sampleImage :: "string \<Rightarrow> ImageFile" where
  "sampleImage n = toImageFile sampleURL (pngFile n)"

definition answering :: service where
  "answering n req = Some (js ''data:'' @ toString n)"

definition failingAt :: "nat \<Rightarrow> service" where
  "failingAt k n req = (if n = k then None else Some (js ''data:'' @ toString n))"

definition tryOnState :: App where
  "tryOnState = initialApp\<lparr>models := [sampleImage ''anna.v2.jpg''],
       outfits := [sampleImage ''dress.png'', sampleImage ''coat.old.png'']\<rparr>"

definition posterState :: App where
  "posterState = initialApp\<lparr>mode := PosterPlacement,
       poster := [sampleImage ''p1.png'', sampleImage ''p2.png'', sampleImage ''p3.png'']\<rparr>"

definition editorState :: App where
  "editorState = initialApp\<lparr>mode := Editor, baseImage := [sampleImage ''photo.jpeg''],
       prompt := js ''Add a retro filter to this image.''\<rparr>"

definition generatorState :: App where
  "generatorState = initialApp\<lparr>mode := Generator,
       prompt := js ''A vibrant, photorealistic image of a futuristic city at sunset.''\<rparr>"

definition sampleResults :: "ResultImage list" where
  "sampleResults = [\<lparr>src = js ''data:0'', name = js ''anna_dress.png''\<rparr>,
                    \<lparr>src = js ''data:1'', name = js ''anna_coat.png''\<rparr>,
                    \<lparr>src = js ''data:2'', name = js ''anna_hat.png''\<rparr>]"

definition sampleFetch :: "nat \<Rightarrow> jsstring \<Rightarrow> jsstring option" where
  "sampleFetch i url = (if i = 1 then None else Some url)"

definition sampleBlob :: "jsstring \<Rightarrow> jsstring option" where
  "sampleBlob response = Some response"

definition sampleGenerateAsync :: "jsstring JSZip \<Rightarrow> nat option" where
  "sampleGenerateAsync files = Some 1"

definition twoPosterState :: App where
  "twoPosterState = initialApp\<lparr>mode := PosterPlacement,
       poster := [sampleImage ''p.png'', sampleImage ''p.png'']\<rparr>"

definition sameNameResults :: "ResultImage list" where
  "sameNameResults = [\<lparr>src = js ''data:0'', name = js ''poster_in_room_p.png''\<rparr>,
                      \<lparr>src = js ''data:1'', name = js ''poster_in_room_p.png''\<rparr>]"

definition fetchAll :: "nat \<Rightarrow> jsstring \<Rightarrow> jsstring option" where
  "fetchAll i url = Some url"

definition emptyBrowser :: "(jsstring, nat) Browser" where
  "emptyBrowser = \<lparr>fetchCalls = [], consoleLog = [], archives = [], downloads = []\<rparr>"


section \<open>Properties of the upload slot\<close>

lemma slice_from_last:
  "xs \<noteq> [] \<Longrightarrow> slice_from (- 1) xs = [last xs]"
proof -
  assume ne: "xs \<noteq> []"
  then have len: "0 < length xs" by simp
  have "slice_from (- 1) xs = drop (length xs - 1) xs"
    using len by (simp add: slice_from_def Let_def nat_diff_distrib' max_def)
  also have "\<dots> = drop (length (butlast xs)) (butlast xs @ [last xs])"
    using ne by simp
  also have "\<dots> = [last xs]"
    by simp
  finally show ?thesis .
qed

lemma slice_from_excess:
  "0 < l \<Longrightarrow> l < int (length xs) \<Longrightarrow>
   slice_from (int (length xs) - l) xs = drop (length xs - nat l) xs"
  by (simp add: slice_from_def Let_def nat_diff_distrib' min_def)

lemma isImageType_png [simp]: "isImageType (pngFile n)"
  by (simp add: isImageType_def pngFile_def startsWith_def js_def)

lemma isImageType_text [simp]: "\<not> isImageType (textFile n)"
  by (simp add: isImageType_def textFile_def startsWith_def js_def)

text \<open>
  Claim C10. An add whose batch is absent, empty or holds only non-image files leaves the
  slot as it was: the selection is unchanged (also that of a single-select slot) and
  \<open>onFilesChange\<close> is not called, since the log of its calls is part of the state.
\<close>

theorem handleFiles_no_image_unchanged:
  assumes "files = None \<or> (\<exists>fs. files = Some fs \<and> (\<forall>f \<in> set fs. \<not> isImageType f))"
  shows "handleFiles createObjectURL props files st = st"
proof (cases files)
  case None
  then show ?thesis by (simp add: handleFiles_def)
next
  case (Some fs)
  with assms have "\<forall>f \<in> set fs. \<not> isImageType f" by simp
  then have "filter isImageType fs = []" by (simp add: filter_empty_conv)
  with Some show ?thesis by (simp add: handleFiles_def)
qed

theorem handleFiles_no_image_unchanged_witness:
  "\<not> isImageType (textFile ''notes.txt'') \<and> \<not> isImageType (textFile ''todo.md'') \<and>
   handleFiles sampleURL \<lparr>multiple = False, limit = None\<rparr>
     (Some [textFile ''notes.txt'', textFile ''todo.md''])
     (emptyUploader\<lparr>uploadedFiles := [toImageFile sampleURL (pngFile ''a.png'')]\<rparr>)
   = emptyUploader\<lparr>uploadedFiles := [toImageFile sampleURL (pngFile ''a.png'')]\<rparr>"
proof -
  have h: "Some [textFile ''notes.txt'', textFile ''todo.md''] = None \<or>
     (\<exists>fs. Some [textFile ''notes.txt'', textFile ''todo.md''] = Some fs \<and>
           (\<forall>f \<in> set fs. \<not> isImageType f))"
    by simp
  show ?thesis
    using handleFiles_no_image_unchanged [OF h] by simp
qed

text \<open>
  Claim C5, as stated, fails: the files of a batch are filtered before the last one is
  taken, so a single-select slot that receives an image followed by a text file keeps the
  image, not the last file of the batch.
\<close>

theorem handleFiles_single_last_file_counterexample:
  "uploadedFiles (handleFiles sampleURL \<lparr>multiple = False, limit = None\<rparr>
      (Some [pngFile ''a.png'', textFile ''notes.txt'']) emptyUploader)
     = [toImageFile sampleURL (pngFile ''a.png'')] \<and>
   uploadedFiles (handleFiles sampleURL \<lparr>multiple = False, limit = None\<rparr>
      (Some [pngFile ''a.png'', textFile ''notes.txt'']) emptyUploader)
     \<noteq> [toImageFile sampleURL (last [pngFile ''a.png'', textFile ''notes.txt''])]"
proof -
  have run: "uploadedFiles (handleFiles sampleURL \<lparr>multiple = False, limit = None\<rparr>
      (Some [pngFile ''a.png'', textFile ''notes.txt'']) emptyUploader)
     = [toImageFile sampleURL (pngFile ''a.png'')]"
    by (simp add: handleFiles_def Let_def slice_from_def emptyUploader_def)
  have differ: "toImageFile sampleURL (pngFile ''a.png'') \<noteq>
      toImageFile sampleURL (textFile ''notes.txt'')"
    by (simp add: toImageFile_def pngFile_def textFile_def js_def)
  show ?thesis using run differ by simp
qed

text \<open>
  Claim C5, amended. On a single-select slot, a batch with at least one image file leaves
  exactly one entry, the last image file of the batch; the other files of the batch and
  the prior selection are gone, and \<open>onFilesChange\<close> is called once with that selection.
\<close>

theorem handleFiles_single_keeps_last_image:
  assumes "\<not> multiple props" and "filter isImageType fs \<noteq> []"
  shows "handleFiles createObjectURL props (Some fs) st =
           st\<lparr>uploadedFiles := [toImageFile createObjectURL (last (filter isImageType fs))],
              filesChanged := filesChanged st @
                [[toImageFile createObjectURL (last (filter isImageType fs))]]\<rparr>"
proof -
  let ?new = "map (toImageFile createObjectURL) (filter isImageType fs)"
  have ne: "?new \<noteq> []" using assms(2) by simp
  have "slice_from (- 1) ?new = [last ?new]"
    using ne by (rule slice_from_last)
  also have "last ?new = toImageFile createObjectURL (last (filter isImageType fs))"
    using assms(2) by (simp add: last_map)
  finally have sl: "slice_from (- 1) ?new =
      [toImageFile createObjectURL (last (filter isImageType fs))]" .
  show ?thesis
    using assms ne sl by (simp add: handleFiles_def Let_def)
qed

theorem handleFiles_single_keeps_last_image_witness:
  "\<not> multiple \<lparr>multiple = False, limit = None\<rparr> \<and>
   filter isImageType [pngFile ''a.png'', pngFile ''b.png'', textFile ''notes.txt''] \<noteq> [] \<and>
   uploadedFiles (handleFiles sampleURL \<lparr>multiple = False, limit = None\<rparr>
      (Some [pngFile ''a.png'', pngFile ''b.png'', textFile ''notes.txt''])
      (emptyUploader\<lparr>uploadedFiles := [toImageFile sampleURL (pngFile ''old.png'')]\<rparr>))
     = [toImageFile sampleURL (pngFile ''b.png'')]"
proof -
  have h1: "\<not> multiple \<lparr>multiple = False, limit = None\<rparr>" by simp
  have h2: "filter isImageType [pngFile ''a.png'', pngFile ''b.png'', textFile ''notes.txt''] \<noteq> []"
    by simp
  show ?thesis
    using handleFiles_single_keeps_last_image [OF h1 h2, of sampleURL
        "emptyUploader\<lparr>uploadedFiles := [toImageFile sampleURL (pngFile ''old.png'')]\<rparr>"]
    by simp
qed

text \<open>
  Claim C4, as stated, fails for the limit 0: the guard \<^verbatim>\<open>limit && ...\<close> treats it as no
  limit, so nothing is dropped although the count exceeds the limit.
\<close>

theorem handleFiles_limit_zero_counterexample:
  "uploadedFiles (handleFiles sampleURL \<lparr>multiple = True, limit = Some 0\<rparr>
      (Some [pngFile ''a.png'', pngFile ''b.png'']) emptyUploader)
     = [toImageFile sampleURL (pngFile ''a.png''), toImageFile sampleURL (pngFile ''b.png'')] \<and>
   length (uploadedFiles (handleFiles sampleURL \<lparr>multiple = True, limit = Some 0\<rparr>
      (Some [pngFile ''a.png'', pngFile ''b.png'']) emptyUploader)) \<noteq> 0"
  by (simp add: handleFiles_def Let_def emptyUploader_def)

text \<open>
  Claim C4, amended. On a multi-select slot with a limit \<open>L \<ge> 1\<close>, adding a non-empty
  batch of image files appends the batch to the selection and keeps the last \<open>L\<close> entries
  of the result, in their order (all of them when there are at most \<open>L\<close>): the oldest
  entries are dropped, and when the count exceeds \<open>L\<close> exactly \<open>L\<close> entries remain.
\<close>

theorem handleFiles_multi_keeps_most_recent:
  assumes "multiple props" and "limit props = Some L" and "1 \<le> L"
    and "fs \<noteq> []" and "\<forall>f \<in> set fs. isImageType f"
  shows "uploadedFiles (handleFiles createObjectURL props (Some fs) st) =
           drop (length (uploadedFiles st @ map (toImageFile createObjectURL) fs) - nat L)
             (uploadedFiles st @ map (toImageFile createObjectURL) fs) \<and>
         (nat L < length (uploadedFiles st @ map (toImageFile createObjectURL) fs) \<longrightarrow>
            length (uploadedFiles (handleFiles createObjectURL props (Some fs) st)) = nat L)"
proof -
  let ?all = "uploadedFiles st @ map (toImageFile createObjectURL) fs"
  have flt: "filter isImageType fs = fs"
    using assms(5) by (simp add: filter_id_conv)
  have eq: "uploadedFiles (handleFiles createObjectURL props (Some fs) st) =
      (if L < int (length ?all) then slice_from (int (length ?all) - L) ?all else ?all)"
    using assms(1-4) flt by (simp add: handleFiles_def Let_def)
  have main: "uploadedFiles (handleFiles createObjectURL props (Some fs) st) =
      drop (length ?all - nat L) ?all"
  proof (cases "L < int (length ?all)")
    case True
    then show ?thesis
      using eq assms(3) slice_from_excess [of L ?all] by simp
  next
    case False
    then have "length ?all - nat L = 0" by linarith
    then show ?thesis using eq False by simp
  qed
  have "nat L < length ?all \<longrightarrow> length (drop (length ?all - nat L) ?all) = nat L"
    by auto
  with main show ?thesis by simp
qed

theorem handleFiles_multi_keeps_most_recent_witness:
  "multiple \<lparr>multiple = True, limit = Some 2\<rparr> \<and>
   limit \<lparr>multiple = True, limit = Some 2\<rparr> = Some 2 \<and> (1::int) \<le> 2 \<and>
   isImageType (pngFile ''b.png'') \<and> isImageType (pngFile ''c.png'') \<and>
   uploadedFiles (handleFiles sampleURL \<lparr>multiple = True, limit = Some 2\<rparr>
      (Some [pngFile ''b.png'', pngFile ''c.png''])
      (emptyUploader\<lparr>uploadedFiles := [toImageFile sampleURL (pngFile ''a.png'')]\<rparr>))
     = [toImageFile sampleURL (pngFile ''b.png''), toImageFile sampleURL (pngFile ''c.png'')]"
proof -
  have h1: "multiple \<lparr>multiple = True, limit = Some 2\<rparr>" by simp
  have h2: "limit \<lparr>multiple = True, limit = Some 2\<rparr> = Some 2" by simp
  have h3: "(1::int) \<le> 2" by simp
  have h4: "[pngFile ''b.png'', pngFile ''c.png''] \<noteq> []" by simp
  have h5: "\<forall>f \<in> set [pngFile ''b.png'', pngFile ''c.png'']. isImageType f" by simp
  show ?thesis
    using handleFiles_multi_keeps_most_recent [OF h1 h2 h3 h4 h5, of sampleURL
        "emptyUploader\<lparr>uploadedFiles := [toImageFile sampleURL (pngFile ''a.png'')]\<rparr>"]
    by simp
qed


section \<open>Properties of a run (handleGenerate)\<close>

lemmas run_defs = handleGenerate_def tryBlock_def tryOnOutfit_def tryOnModel_def placePoster_def
  generateVirtualTryOn_def editImage_def generateImage_def placePosterOnWall_def await_call_def
  at_index_def Let_def

lemma js_split_first: "\<exists>ws. js_split sep s = takeWhile (\<lambda>c. c \<noteq> sep) s # ws"
  by (induction s) (auto split: list.splits)

lemma first_segment_stem: "first_segment n = stem n"
  using js_split_first [of "0x2E" n] by (auto simp: first_segment_def stem_def)

lemma tryOnOutfit_ok:
  assumes "models s = m # ms"
    and "svc (length (issued s)) (VirtualTryOn (Some m) (Some outfit) (prompt s)) = Some h"
  shows "tryOnOutfit svc index outfit acc s =
           (Inr (acc @ [\<lparr>src = h, name = tryOnName m outfit\<rparr>]),
            s\<lparr>loadingMessage := generatingMessage (length (outfits s)) (index + 1),
              issued := issued s @ [(VirtualTryOn (Some m) (Some outfit) (prompt s), Some h)]\<rparr>)"
  using assms
  by (simp add: tryOnOutfit_def generateVirtualTryOn_def await_call_def at_index_def Let_def)

lemma for_entries_tryOnOutfit_ok:
  assumes "models s = m # ms"
    and "\<forall>j < length os.
           svc (length (issued s) + j) (VirtualTryOn (Some m) (Some (os ! j)) (prompt s)) = Some (h j)"
  shows "\<exists>msg. for_entries (tryOnOutfit svc) index os acc s =
           (Inr (acc @ map (\<lambda>j. \<lparr>src = h j, name = tryOnName m (os ! j)\<rparr>) [0..<length os]),
            s\<lparr>loadingMessage := msg,
              issued := issued s @
                map (\<lambda>j. (VirtualTryOn (Some m) (Some (os ! j)) (prompt s), Some (h j)))
                  [0..<length os]\<rparr>)"
  using assms
proof (induction os arbitrary: index acc s h)
  case Nil
  have "s = s\<lparr>loadingMessage := loadingMessage s, issued := issued s\<rparr>" by simp
  then show ?case by (auto intro: exI [of _ "loadingMessage s"])
next
  case (Cons outfit os)
  let ?req = "\<lambda>x. VirtualTryOn (Some m) (Some x) (prompt s)"
  let ?s1 = "s\<lparr>loadingMessage := generatingMessage (length (outfits s)) (index + 1),
              issued := issued s @ [(?req outfit, Some (h 0))]\<rparr>"
  have first: "svc (length (issued s)) (?req outfit) = Some (h 0)"
    using Cons.prems(2) by force
  have step: "tryOnOutfit svc index outfit acc s =
      (Inr (acc @ [\<lparr>src = h 0, name = tryOnName m outfit\<rparr>]), ?s1)"
    using Cons.prems(1) first
    by (rule tryOnOutfit_ok [where svc = svc and h = "h 0" and m = m and ms = ms])
  have m1: "models ?s1 = m # ms" using Cons.prems(1) by simp
  have rest: "\<forall>j < length os.
      svc (length (issued ?s1) + j) (VirtualTryOn (Some m) (Some (os ! j)) (prompt ?s1))
        = Some ((\<lambda>j. h (Suc j)) j)"
  proof (intro allI impI)
    fix j assume "j < length os"
    then have "Suc j < length (outfit # os)" by simp
    with Cons.prems(2) have "svc (length (issued s) + Suc j)
        (VirtualTryOn (Some m) (Some ((outfit # os) ! Suc j)) (prompt s)) = Some (h (Suc j))"
      by blast
    then show "svc (length (issued ?s1) + j) (VirtualTryOn (Some m) (Some (os ! j)) (prompt ?s1))
        = Some (h (Suc j))"
      by simp
  qed
  from Cons.IH [where s = ?s1 and h = "\<lambda>j. h (Suc j)" and index = "Suc index"
      and acc = "acc @ [\<lparr>src = h 0, name = tryOnName m outfit\<rparr>]", OF m1 rest]
  obtain msg where ih: "for_entries (tryOnOutfit svc) (Suc index) os
        (acc @ [\<lparr>src = h 0, name = tryOnName m outfit\<rparr>]) ?s1 =
      (Inr ((acc @ [\<lparr>src = h 0, name = tryOnName m outfit\<rparr>]) @
            map (\<lambda>j. \<lparr>src = h (Suc j), name = tryOnName m (os ! j)\<rparr>) [0..<length os]),
       ?s1\<lparr>loadingMessage := msg,
           issued := issued ?s1 @
             map (\<lambda>j. (VirtualTryOn (Some m) (Some (os ! j)) (prompt ?s1), Some (h (Suc j))))
               [0..<length os]\<rparr>)"
    by blast
  show ?case
    using ih by (intro exI [of _ msg]) (simp add: step map_upt_Suc del: upt_Suc)
qed

text \<open>
  Claim C1. A run in the mode of one model and \<open>N \<ge> 1\<close> outfits, with the model
  \<open>models[0]\<close> selected and every call answered: the run issues exactly \<open>N\<close> calls, the
  \<open>i\<close>-th with the model and the \<open>i\<close>-th outfit and issued after the \<open>i - 1\<close> calls before
  it, and the result list has \<open>N\<close> entries, the \<open>i\<close>-th with the answer of the \<open>i\<close>-th call
  and the name made of the stem of the model's name, an underscore, the stem of the
  \<open>i\<close>-th outfit's name and \<open>.png\<close>. Nothing is logged and the loading flag is cleared.
\<close>

theorem one_model_run:
  assumes "mode s = OneModelNOutfits" and "models s = m # ms" and "outfits s \<noteq> []"
    and "\<forall>i < length (outfits s).
           svc (length (issued s) + i) (VirtualTryOn (Some m) (Some (outfits s ! i)) (prompt s))
             = Some (h i)"
  shows "issued (handleGenerate svc s) =
           issued s @ map (\<lambda>i. (VirtualTryOn (Some m) (Some (outfits s ! i)) (prompt s), Some (h i)))
                        [0..<length (outfits s)] \<and>
         length (results (handleGenerate svc s)) = length (outfits s) \<and>
         (\<forall>i < length (outfits s).
            results (handleGenerate svc s) ! i =
              \<lparr>src = h i,
               name = stem (ImageFile.name m) @ js ''_'' @ stem (ImageFile.name (outfits s ! i))
                        @ js ''.png''\<rparr>) \<and>
         consoleErrors (handleGenerate svc s) = consoleErrors s \<and>
         \<not> isLoading (handleGenerate svc s)"
proof -
  let ?s2 = "s\<lparr>isLoading := True, results := [],
               loadingMessage := generatingMessage (length (outfits s)) 1\<rparr>"
  have m: "models ?s2 = m # ms" using assms(2) by simp
  have ans: "\<forall>i < length (outfits s).
      svc (length (issued ?s2) + i) (VirtualTryOn (Some m) (Some (outfits s ! i)) (prompt ?s2))
        = Some (h i)"
    using assms(4) by simp
  from for_entries_tryOnOutfit_ok [where s = ?s2 and svc = svc and h = h and os = "outfits s"
      and index = 0 and acc = "[]", OF m ans]
  obtain msg where loop: "for_entries (tryOnOutfit svc) 0 (outfits s) [] ?s2 =
      (Inr ([] @ map (\<lambda>i. \<lparr>src = h i, name = tryOnName m (outfits s ! i)\<rparr>) [0..<length (outfits s)]),
       ?s2\<lparr>loadingMessage := msg,
           issued := issued ?s2 @
             map (\<lambda>i. (VirtualTryOn (Some m) (Some (outfits s ! i)) (prompt ?s2), Some (h i)))
               [0..<length (outfits s)]\<rparr>)"
    by blast
  have run: "handleGenerate svc s =
      s\<lparr>isLoading := False, loadingMessage := js '''',
        results := map (\<lambda>i. \<lparr>src = h i, name = tryOnName m (outfits s ! i)\<rparr>) [0..<length (outfits s)],
        issued := issued s @
          map (\<lambda>i. (VirtualTryOn (Some m) (Some (outfits s ! i)) (prompt s), Some (h i)))
            [0..<length (outfits s)]\<rparr>"
    using assms(1) loop by (simp add: handleGenerate_def tryBlock_def Let_def)
  show ?thesis
    by (simp add: run tryOnName_def first_segment_stem)
qed

lemma all_less_2: "(\<forall>i<(2::nat). P i) \<longleftrightarrow> P 0 \<and> P 1"
  by (auto simp: less_Suc_eq numeral_2_eq_2)

theorem one_model_run_witness:
  "mode tryOnState = OneModelNOutfits \<and>
   models tryOnState = [sampleImage ''anna.v2.jpg''] \<and>
   outfits tryOnState \<noteq> [] \<and>
   map fst (issued (handleGenerate answering tryOnState)) =
     [VirtualTryOn (Some (sampleImage ''anna.v2.jpg'')) (Some (sampleImage ''dress.png'')) tryOnPrompt,
      VirtualTryOn (Some (sampleImage ''anna.v2.jpg'')) (Some (sampleImage ''coat.old.png'')) tryOnPrompt] \<and>
   map ResultImage.name (results (handleGenerate answering tryOnState)) =
     [js ''anna_dress.png'', js ''anna_coat.png'']"
proof -
  have h1: "mode tryOnState = OneModelNOutfits" by (simp add: tryOnState_def initialApp_def)
  have h2: "models tryOnState = sampleImage ''anna.v2.jpg'' # []" by (simp add: tryOnState_def)
  have h3: "outfits tryOnState \<noteq> []" by (simp add: tryOnState_def)
  have h4: "\<forall>i < length (outfits tryOnState).
      answering (length (issued tryOnState) + i)
        (VirtualTryOn (Some (sampleImage ''anna.v2.jpg'')) (Some (outfits tryOnState ! i))
           (prompt tryOnState))
      = Some ((\<lambda>i. js ''data:'' @ toString i) i)"
    by (simp add: tryOnState_def initialApp_def answering_def)
  note run = one_model_run [where h = "\<lambda>i. js ''data:'' @ toString i", OF h1 h2 h3 h4]
  have len: "length (outfits tryOnState) = 2" by (simp add: tryOnState_def)
  have names: "stem (ImageFile.name (sampleImage ''anna.v2.jpg'')) = js ''anna''"
      "stem (ImageFile.name (sampleImage ''dress.png'')) = js ''dress''"
      "stem (ImageFile.name (sampleImage ''coat.old.png'')) = js ''coat''"
    by (simp_all add: stem_def sampleImage_def toImageFile_def pngFile_def js_def)
  have o: "outfits tryOnState ! 0 = sampleImage ''dress.png''"
      "outfits tryOnState ! 1 = sampleImage ''coat.old.png''"
      "prompt tryOnState = tryOnPrompt"
    by (simp_all add: tryOnState_def initialApp_def)
  from run have r: "length (results (handleGenerate answering tryOnState)) = 2"
    and r0: "ResultImage.name (results (handleGenerate answering tryOnState) ! 0) = js ''anna_dress.png''"
    and r1: "ResultImage.name (results (handleGenerate answering tryOnState) ! 1) = js ''anna_coat.png''"
    and iss: "map fst (issued (handleGenerate answering tryOnState)) =
     [VirtualTryOn (Some (sampleImage ''anna.v2.jpg'')) (Some (sampleImage ''dress.png'')) tryOnPrompt,
      VirtualTryOn (Some (sampleImage ''anna.v2.jpg'')) (Some (sampleImage ''coat.old.png'')) tryOnPrompt]"
    by (simp_all add: len all_less_2 names o js_def tryOnState_def initialApp_def upt_rec [of 0]
          numeral_2_eq_2 comp_def)
  have "map ResultImage.name (results (handleGenerate answering tryOnState)) =
     [js ''anna_dress.png'', js ''anna_coat.png'']"
    using r r0 r1 by (cases "results (handleGenerate answering tryOnState)" rule: list.exhaust;
        auto simp: length_Suc_conv numeral_2_eq_2)
  with h1 h2 h3 iss show ?thesis by simp
qed

text \<open>
  Claim C7. A run in the editor mode over a selected image whose call is answered issues
  exactly one call, with that image and the instruction, and leaves exactly one result:
  the answer, named \<open>edited_\<close> followed by the full name of the image.
\<close>

theorem editor_run:
  assumes "mode s = Editor" and "baseImage s = img # rest"
    and "svc (length (issued s)) (EditImage (Some img) (prompt s)) = Some h"
  shows "issued (handleGenerate svc s) = issued s @ [(EditImage (Some img) (prompt s), Some h)] \<and>
         results (handleGenerate svc s) = [\<lparr>src = h, name = js ''edited_'' @ ImageFile.name img\<rparr>]"
  using assms
  by (simp add: handleGenerate_def tryBlock_def editImage_def await_call_def at_index_def Let_def)

theorem editor_run_witness:
  "mode editorState = Editor \<and> baseImage editorState = [sampleImage ''photo.jpeg''] \<and>
   answering (length (issued editorState))
     (EditImage (Some (sampleImage ''photo.jpeg'')) (prompt editorState)) = Some (js ''data:0'') \<and>
   length (issued (handleGenerate answering editorState)) = 1 \<and>
   map ResultImage.name (results (handleGenerate answering editorState)) = [js ''edited_photo.jpeg'']"
proof -
  have h1: "mode editorState = Editor" by (simp add: editorState_def)
  have h2: "baseImage editorState = sampleImage ''photo.jpeg'' # []" by (simp add: editorState_def)
  have h3: "answering (length (issued editorState))
     (EditImage (Some (sampleImage ''photo.jpeg'')) (prompt editorState)) = Some (js ''data:0'')"
    by (simp add: editorState_def initialApp_def answering_def toString.simps js_def)
  have n: "ImageFile.name (sampleImage ''photo.jpeg'') = js ''photo.jpeg''"
    by (simp add: sampleImage_def toImageFile_def pngFile_def)
  have i: "issued editorState = []" by (simp add: editorState_def initialApp_def)
  show ?thesis
    using editor_run [where svc = answering and h = "js ''data:0''", OF h1 h2 h3] h1 h2 h3
    by (simp add: n i js_def)
qed

text \<open>
  Claim C8. A run in the generator mode whose call is answered reads no image: whatever
  the selections are, it issues exactly one call, with the instruction alone, and leaves
  exactly one result, the answer, named \<open>generated_image.png\<close>.
\<close>

theorem generator_run:
  assumes "mode s = Generator"
    and "svc (length (issued s)) (GenerateImage (prompt s)) = Some h"
  shows "issued (handleGenerate svc s) = issued s @ [(GenerateImage (prompt s), Some h)] \<and>
         results (handleGenerate svc s) = [\<lparr>src = h, name = js ''generated_image.png''\<rparr>]"
  using assms
  by (simp add: handleGenerate_def tryBlock_def generateImage_def await_call_def Let_def)

theorem generator_run_witness:
  "mode generatorState = Generator \<and>
   models generatorState = [] \<and> outfits generatorState = [] \<and>
   baseImage generatorState = [] \<and> poster generatorState = [] \<and>
   answering (length (issued generatorState)) (GenerateImage (prompt generatorState))
     = Some (js ''data:0'') \<and>
   length (issued (handleGenerate answering generatorState)) = 1 \<and>
   results (handleGenerate answering generatorState)
     = [\<lparr>src = js ''data:0'', name = js ''generated_image.png''\<rparr>]"
proof -
  have h1: "mode generatorState = Generator" by (simp add: generatorState_def)
  have h2: "answering (length (issued generatorState)) (GenerateImage (prompt generatorState))
     = Some (js ''data:0'')"
    by (simp add: generatorState_def initialApp_def answering_def toString.simps js_def)
  have i: "issued generatorState = []" "models generatorState = []" "outfits generatorState = []"
      "baseImage generatorState = []" "poster generatorState = []"
    by (simp_all add: generatorState_def initialApp_def)
  show ?thesis
    using generator_run [where svc = answering and h = "js ''data:0''", OF h1 h2] h1 h2
    by (simp add: i)
qed


subsection \<open>Failure of a call\<close>

lemma fail_fast_append:
  "fail_fast (Inr a) new1 \<Longrightarrow> fail_fast r new2 \<Longrightarrow> fail_fast r (new1 @ new2)"
  by (cases r; cases "new2 = []") (auto simp: fail_fast_def butlast_append dest: in_set_butlastD)

lemma one_callD:
  "one_call f \<Longrightarrow> f s = (r, s') \<Longrightarrow>
   \<exists>new. issued s' = issued s @ new \<and> length new \<le> 1 \<and> fail_fast r new \<and> results s' = results s"
  unfolding one_call_def by blast

lemma tryOnOutfit_one: "one_call (tryOnOutfit svc index outfit acc)"
  by (auto simp: one_call_def tryOnOutfit_def generateVirtualTryOn_def await_call_def Let_def
        fail_fast_def split: option.splits)

lemma tryOnModel_one: "one_call (tryOnModel svc index model acc)"
  by (auto simp: one_call_def tryOnModel_def generateVirtualTryOn_def await_call_def Let_def
        fail_fast_def split: option.splits)

lemma placePoster_one: "one_call (placePoster svc index p acc)"
  by (auto simp: one_call_def placePoster_def placePosterOnWall_def await_call_def Let_def
        fail_fast_def split: option.splits)

text \<open>A loop issues at most one call per entry, and stops at the first call that fails.\<close>

lemma for_entries_calls:
  assumes body: "\<And>i x acc. one_call (body i x acc)"
    and run: "for_entries body index xs acc s = (r, s')"
  shows "\<exists>new. issued s' = issued s @ new \<and> length new \<le> length xs \<and> fail_fast r new \<and>
           results s' = results s"
  using run
proof (induction xs arbitrary: index acc s)
  case Nil
  then show ?case by (auto simp: fail_fast_def)
next
  case (Cons x xs)
  obtain r1 s1 where step: "body index x acc s = (r1, s1)"
    by (cases "body index x acc s")
  from one_callD [OF body step]
  obtain new1 where new1: "issued s1 = issued s @ new1" "length new1 \<le> 1" "fail_fast r1 new1"
      "results s1 = results s" by blast
  show ?case
  proof (cases r1)
    case (Inl e)
    with Cons.prems step have "r = Inl e" "s' = s1" by simp_all
    with new1 Inl show ?thesis by auto
  next
    case (Inr acc')
    with Cons.prems step have "for_entries body (Suc index) xs acc' s1 = (r, s')" by simp
    from Cons.IH [OF this]
    obtain new2 where new2: "issued s' = issued s1 @ new2" "length new2 \<le> length xs"
        "fail_fast r new2" "results s' = results s1" by blast
    have "fail_fast r (new1 @ new2)"
      using new1(3) new2(3) Inr by (simp add: fail_fast_append)
    with new1 new2 show ?thesis
      by (intro exI [of _ "new1 @ new2"]) simp
  qed
qed

lemma tryBlock_calls:
  assumes "tryBlock svc s = (r, s')"
  shows "\<exists>new. issued s' = issued s @ new \<and> length new \<le> unit_count s \<and> fail_fast r new \<and>
           (\<forall>e. r = Inl e \<longrightarrow> results s' = results s)"
proof (cases "mode s")
  case OneModelNOutfits
  let ?s1 = "s\<lparr>loadingMessage := generatingMessage (length (outfits s)) 1\<rparr>"
  obtain r1 s2 where loop: "for_entries (tryOnOutfit svc) 0 (outfits s) [] ?s1 = (r1, s2)"
    by (cases "for_entries (tryOnOutfit svc) 0 (outfits s) [] ?s1")
  from for_entries_calls [OF tryOnOutfit_one loop]
  obtain new where new: "issued s2 = issued ?s1 @ new" "length new \<le> length (outfits s)"
      "fail_fast r1 new" "results s2 = results ?s1" by blast
  show ?thesis
    using assms OneModelNOutfits loop new
    by (cases r1) (auto simp: tryBlock_def Let_def unit_count_def fail_fast_def)
next
  case NModelsOneOutfit
  let ?s1 = "s\<lparr>loadingMessage := generatingMessage (length (models s)) 1\<rparr>"
  obtain r1 s2 where loop: "for_entries (tryOnModel svc) 0 (models s) [] ?s1 = (r1, s2)"
    by (cases "for_entries (tryOnModel svc) 0 (models s) [] ?s1")
  from for_entries_calls [OF tryOnModel_one loop]
  obtain new where new: "issued s2 = issued ?s1 @ new" "length new \<le> length (models s)"
      "fail_fast r1 new" "results s2 = results ?s1" by blast
  show ?thesis
    using assms NModelsOneOutfit loop new
    by (cases r1) (auto simp: tryBlock_def Let_def unit_count_def fail_fast_def)
next
  case Editor
  then show ?thesis
    using assms
    by (auto simp: tryBlock_def editImage_def await_call_def Let_def unit_count_def fail_fast_def
          split: option.splits)
next
  case Generator
  then show ?thesis
    using assms
    by (auto simp: tryBlock_def generateImage_def await_call_def Let_def unit_count_def
          fail_fast_def split: option.splits)
next
  case PosterPlacement
  let ?s1 = "s\<lparr>loadingMessage := placingMessage (length (poster s)) 1\<rparr>"
  obtain r1 s2 where loop: "for_entries (placePoster svc) 0 (poster s) [] ?s1 = (r1, s2)"
    by (cases "for_entries (placePoster svc) 0 (poster s) [] ?s1")
  from for_entries_calls [OF placePoster_one loop]
  obtain new where new: "issued s2 = issued ?s1 @ new" "length new \<le> length (poster s)"
      "fail_fast r1 new" "results s2 = results ?s1" by blast
  show ?thesis
    using assms PosterPlacement loop new
    by (cases r1) (auto simp: tryBlock_def Let_def unit_count_def fail_fast_def)
qed

lemma fail_fast_failed_is_last:
  assumes "fail_fast r new" and "k < length new" and "snd (new ! k) = None"
  shows "length new = Suc k \<and> (\<exists>e. r = Inl e)"
proof -
  have notall: "\<not> (\<forall>c \<in> set new. snd c \<noteq> None)"
    using assms(2,3) nth_mem by blast
  then obtain e where e: "r = Inl e"
    using assms(1) by (cases r) (auto simp: fail_fast_def)
  have "\<not> k < length (butlast new)"
  proof
    assume lt: "k < length (butlast new)"
    then have "butlast new ! k \<in> set (butlast new)" by (rule nth_mem)
    moreover have "butlast new ! k = new ! k" using lt by (rule nth_butlast)
    ultimately show False using assms(1,3) e by (auto simp: fail_fast_def)
  qed
  with assms(2) have "length new = Suc k" by simp
  with e show ?thesis by blast
qed

lemma handleGenerate_calls:
  "\<exists>r s3. tryBlock svc (s\<lparr>isLoading := True, results := []\<rparr>) = (r, s3) \<and>
     issued (handleGenerate svc s) = issued s3 \<and>
     \<not> isLoading (handleGenerate svc s) \<and>
     loadingMessage (handleGenerate svc s) = js '''' \<and>
     results (handleGenerate svc s) = results s3"
  by (cases "tryBlock svc (s\<lparr>isLoading := True, results := []\<rparr>)")
     (auto simp: handleGenerate_def Let_def js_def split: sum.splits)

text \<open>
  Claim C2. In every run, of any mode and from any state, if the \<open>k\<close>-th call that the run
  issues fails, then it is the last call of the run: the run issued exactly \<open>k\<close> calls, of
  the \<open>N \<ge> k\<close> that its work units ask for. The run ends with no result at all (the results
  gathered before the failure are not stored), with the loading flag cleared and with an
  empty progress message.
\<close>

theorem failed_call_ends_run:
  assumes "1 \<le> k" and "k \<le> length (new_calls svc s)"
    and "snd (new_calls svc s ! (k - 1)) = None"
  shows "issued (handleGenerate svc s) = issued s @ new_calls svc s \<and>
         length (new_calls svc s) = k \<and>
         k \<le> unit_count s \<and>
         results (handleGenerate svc s) = [] \<and>
         \<not> isLoading (handleGenerate svc s) \<and>
         loadingMessage (handleGenerate svc s) = js ''''"
proof -
  let ?s2 = "s\<lparr>isLoading := True, results := []\<rparr>"
  from handleGenerate_calls [of svc s]
  obtain r s3 where run: "tryBlock svc ?s2 = (r, s3)"
    and fin: "issued (handleGenerate svc s) = issued s3" "\<not> isLoading (handleGenerate svc s)"
      "loadingMessage (handleGenerate svc s) = js ''''"
      "results (handleGenerate svc s) = results s3"
    by blast
  from tryBlock_calls [OF run]
  obtain new where new: "issued s3 = issued ?s2 @ new" "length new \<le> unit_count ?s2"
      "fail_fast r new" "\<forall>e. r = Inl e \<longrightarrow> results s3 = results ?s2"
    by blast
  have nc: "new_calls svc s = new"
    using fin(1) new(1) by (simp add: new_calls_def)
  have "k - 1 < length new" using assms(1,2) nc by simp
  from fail_fast_failed_is_last [OF new(3) this] assms(3) nc
  have last: "length new = Suc (k - 1)" and failed: "\<exists>e. r = Inl e" by simp_all
  have uc: "unit_count ?s2 = unit_count s"
    by (simp add: unit_count_def split: AppMode.splits)
  show ?thesis
    using fin new nc last failed assms(1) uc by auto
qed

theorem failed_call_ends_run_witness:
  "(1::nat) \<le> 2 \<and> 2 \<le> length (new_calls (failingAt 1) posterState) \<and>
   snd (new_calls (failingAt 1) posterState ! (2 - 1)) = None \<and>
   length (new_calls (failingAt 1) posterState) = 2 \<and>
   unit_count posterState = 3 \<and>
   results (handleGenerate (failingAt 1) posterState) = [] \<and>
   \<not> isLoading (handleGenerate (failingAt 1) posterState) \<and>
   loadingMessage (handleGenerate (failingAt 1) posterState) = js ''''"
proof -
  have nc: "map snd (new_calls (failingAt 1) posterState) = [Some (js ''data:'' @ toString 0), None]"
    by (simp add: new_calls_def run_defs posterState_def initialApp_def failingAt_def)
  then have len: "length (new_calls (failingAt 1) posterState) = 2"
    by (metis length_map length_Cons list.size(3) numeral_2_eq_2)
  have h1: "(1::nat) \<le> 2" by simp
  have h2: "2 \<le> length (new_calls (failingAt 1) posterState)" using len by simp
  have "map snd (new_calls (failingAt 1) posterState) ! 1 = None" using nc by simp
  then have h3: "snd (new_calls (failingAt 1) posterState ! (2 - 1)) = None"
    using len by (simp add: nth_map)
  have uc: "unit_count posterState = 3" by (simp add: unit_count_def posterState_def)
  show ?thesis
    using failed_call_ends_run [OF h1 h2 h3] h1 h2 h3 uc by simp
qed


section \<open>Properties of the start condition and of the mode switch\<close>

text \<open>
  Claim C3. The button that starts a run is enabled exactly when the specification lets a
  run start: no run is loading and, in the two paired modes, at least one model and at
  least one outfit are selected, whatever the instruction; in the editor mode the image
  to edit is selected and the trimmed instruction is not empty; in the generator mode the
  trimmed instruction is not empty, whatever is selected; in the poster mode at least one
  poster is selected and the trimmed instruction is not empty.
\<close>

theorem generate_enabled_iff:
  "(\<not> isGenerateButtonDisabled s) = spec_run_may_start s"
  by (cases "mode s") (simp_all add: isGenerateButtonDisabled_def spec_run_may_start_def js_def)

text \<open>
  Claim C6. From any state and for any new mode, \<open>handleModeChange\<close> empties the four image
  selections and the results, makes the new mode the active one and sets the instruction
  to the default text of the new mode; for the mode that the application starts in, this
  is the instruction it starts with.
\<close>

theorem handleModeChange_resets:
  "models (handleModeChange newMode s) = [] \<and>
   outfits (handleModeChange newMode s) = [] \<and>
   baseImage (handleModeChange newMode s) = [] \<and>
   poster (handleModeChange newMode s) = [] \<and>
   results (handleModeChange newMode s) = [] \<and>
   mode (handleModeChange newMode s) = newMode \<and>
   prompt (handleModeChange newMode s) =
     (case newMode of
        OneModelNOutfits \<Rightarrow> js ''Create a photorealistic image of the model wearing the outfit. Match the lighting, shadows, and style for a seamless composition.''
      | NModelsOneOutfit \<Rightarrow> js ''Create a photorealistic image of the model wearing the outfit. Match the lighting, shadows, and style for a seamless composition.''
      | Editor \<Rightarrow> js ''Add a retro filter to this image.''
      | Generator \<Rightarrow> js ''A vibrant, photorealistic image of a futuristic city at sunset.''
      | PosterPlacement \<Rightarrow> js ''Place this poster on a wall in a cozy bedroom, next to the bed. The poster should be frameless and blend naturally with the room's lighting and perspective.'') \<and>
   prompt (handleModeChange (mode initialApp) s) = prompt initialApp"
  by (cases newMode) (simp_all add: handleModeChange_def tryOnPrompt_def initialApp_def)


section \<open>Properties of packaging\<close>

lemma lastIndexOf_less: "lastIndexOf c s < int (length s)"
  by (induction s) (auto simp: Let_def)

lemma lastIndexOf_absent: "c \<notin> set s \<Longrightarrow> lastIndexOf c s = - 1"
  by (induction s) (auto simp: Let_def)

lemma parentFolder_no_slash: "0x2F \<notin> set path \<Longrightarrow> parentFolder path = []"
proof -
  assume a: "0x2F \<notin> set path"
  then have "\<not> (path \<noteq> [] \<and> last path = 0x2F)" using last_in_set by metis
  with a show ?thesis by (auto simp: parentFolder_def Let_def lastIndexOf_absent)
qed

text \<open>The parent of a folder has a shorter name than the folder.\<close>

lemma length_parentFolder_forced:
  assumes "parentFolder (forceTrailingSlash n) \<noteq> []"
  shows "length (forceTrailingSlash (parentFolder (forceTrailingSlash n)))
           < length (forceTrailingSlash n)"
proof -
  let ?d = "forceTrailingSlash n"
  have d: "?d \<noteq> []" "last ?d = 0x2F" by (auto simp: forceTrailingSlash_def)
  let ?p = "butlast ?d"
  let ?k = "lastIndexOf 0x2F ?p"
  have k: "?k < int (length ?p)" by (rule lastIndexOf_less)
  have pos: "0 < ?k"
    using assms d by (auto simp: parentFolder_def Let_def split: if_splits)
  have par: "parentFolder ?d = take (nat ?k) ?p"
    using d pos by (simp add: parentFolder_def Let_def)
  have "length (parentFolder ?d) = nat ?k" using k pos by (simp add: par)
  moreover have "length (forceTrailingSlash (parentFolder ?d)) \<le> length (parentFolder ?d) + 1"
    by (simp add: forceTrailingSlash_def)
  moreover have "length ?p = length ?d - 1" by simp
  moreover have "0 < length ?d" using d by simp
  ultimately show ?thesis using k pos by linarith
qed

termination folderAdd
  by (relation "measure (\<lambda>(path, files). length (forceTrailingSlash path))")
     (auto simp: length_parentFolder_forced)

declare folderAdd.simps [simp del]

text \<open>Adding folders neither adds, removes nor changes a file of the archive.\<close>

lemma folderAdd_files:
  "(folderAdd path files n = Some (ZipFile b)) = (files n = Some (ZipFile b))"
proof (induction path files rule: folderAdd.induct)
  case (1 path files)
  show ?case
  proof (cases "files (forceTrailingSlash path) \<noteq> None")
    case True
    then show ?thesis by (simp add: folderAdd.simps [of path files])
  next
    case False
    show ?thesis
    proof (cases "parentFolder (forceTrailingSlash path) \<noteq> []")
      case True
      with False 1 show ?thesis
        by (auto simp: folderAdd.simps [of path files] Let_def)
    next
      case no: False
      with False show ?thesis
        by (auto simp: folderAdd.simps [of path files] Let_def)
    qed
  qed
qed

lemma fileAdd_files:
  "(fileAdd path d files n = Some (ZipFile b)) =
     (if n = path then b = d else files n = Some (ZipFile b))"
  by (auto simp: fileAdd_def Let_def folderAdd_files)

lemma fileAdd_plain:
  "0x2F \<notin> set path \<Longrightarrow> fileAdd path d files = files(path \<mapsto> ZipFile d)"
  by (simp add: fileAdd_def parentFolder_no_slash)

lemma fileAdd_in_folder:
  "fileAdd (js ''a/c.png'') d Map.empty = [js ''a/'' \<mapsto> ZipFolder, js ''a/c.png'' \<mapsto> ZipFile d]"
  by (simp add: fileAdd_def folderAdd.simps parentFolder_def forceTrailingSlash_def js_def Let_def)

lemma settle_in_range:
  assumes "i < length images"
  shows "settle fetch blob images i (jszip, logged) =
     (case retrieved fetch blob images i of
        None \<Rightarrow> (jszip, logged @ [failedMessage (ResultImage.name (images ! i))])
      | Some b \<Rightarrow> (fileAdd (ResultImage.name (images ! i)) b jszip, logged))"
  using assms by (simp add: settle_def at_index_def retrieved_def split: option.splits)

lemma fold_settle_log:
  assumes "\<forall>i \<in> set order. i < length images"
  shows "mset (snd (fold (settle fetch blob images) order (jszip, logged))) =
           mset logged + image_mset (\<lambda>i. failedMessage (ResultImage.name (images ! i)))
             (filter_mset (\<lambda>i. retrieved fetch blob images i = None) (mset order))"
  using assms
proof (induction order arbitrary: jszip logged)
  case Nil
  then show ?case by simp
next
  case (Cons i order)
  then have i: "i < length images" and rest: "\<forall>j \<in> set order. j < length images" by simp_all
  show ?case
    using Cons.IH [OF rest]
    by (cases "retrieved fetch blob images i") (simp_all add: settle_in_range [OF i])
qed

text \<open>
  The files of the archive while the items settle: when the fetched items have distinct
  names, the files are the fetched items among those that have settled.
\<close>

lemma fold_settle_files:
  assumes range: "\<forall>i \<in> set order. i < length images"
    and dist: "\<forall>i < length images. \<forall>j < length images.
        retrieved fetch blob images i \<noteq> None \<longrightarrow> retrieved fetch blob images j \<noteq> None \<longrightarrow>
        ResultImage.name (images ! i) = ResultImage.name (images ! j) \<longrightarrow> i = j"
    and settled: "\<forall>i \<in> S. i < length images"
    and inv: "\<forall>n b. (jszip n = Some (ZipFile b)) =
        (\<exists>i \<in> S. retrieved fetch blob images i = Some b \<and> ResultImage.name (images ! i) = n)"
  shows "\<forall>n b. (fst (fold (settle fetch blob images) order (jszip, logged)) n = Some (ZipFile b)) =
        (\<exists>i \<in> S \<union> set order.
           retrieved fetch blob images i = Some b \<and> ResultImage.name (images ! i) = n)"
  using range settled inv
proof (induction order arbitrary: jszip logged S)
  case Nil
  then show ?case by simp
next
  case (Cons i order)
  then have i: "i < length images" and rest: "\<forall>j \<in> set order. j < length images" by simp_all
  obtain jszip' logged' where step: "settle fetch blob images i (jszip, logged) = (jszip', logged')"
    by (cases "settle fetch blob images i (jszip, logged)")
  have settled': "\<forall>j \<in> insert i S. j < length images" using i Cons.prems(2) by simp
  have inv': "\<forall>n b. (jszip' n = Some (ZipFile b)) =
      (\<exists>j \<in> insert i S. retrieved fetch blob images j = Some b \<and> ResultImage.name (images ! j) = n)"
  proof (cases "retrieved fetch blob images i")
    case None
    then have "jszip' = jszip" using step by (simp add: settle_in_range [OF i])
    with None Cons.prems(3) show ?thesis by simp
  next
    case (Some d)
    then have z: "jszip' = fileAdd (ResultImage.name (images ! i)) d jszip"
      using step by (simp add: settle_in_range [OF i])
    show ?thesis
    proof (intro allI)
      fix n b
      show "(jszip' n = Some (ZipFile b)) =
        (\<exists>j \<in> insert i S. retrieved fetch blob images j = Some b \<and> ResultImage.name (images ! j) = n)"
      proof (cases "n = ResultImage.name (images ! i)")
        case True
        have same: "\<And>j. j \<in> S \<Longrightarrow> retrieved fetch blob images j = Some b \<Longrightarrow>
            ResultImage.name (images ! j) = n \<Longrightarrow> b = d"
        proof -
          fix j assume j: "j \<in> S" "retrieved fetch blob images j = Some b"
            "ResultImage.name (images ! j) = n"
          then have "j < length images" using Cons.prems(2) by simp
          with dist i j Some True have "j = i" by simp
          with j(2) Some show "b = d" by simp
        qed
        have "(jszip' n = Some (ZipFile b)) = (b = d)"
          using True by (simp add: z fileAdd_files)
        also have "(b = d) =
            (\<exists>j \<in> insert i S. retrieved fetch blob images j = Some b \<and>
               ResultImage.name (images ! j) = n)"
          using True Some same by auto
        finally show ?thesis .
      next
        case False
        then show ?thesis
          using Cons.prems(3) by (auto simp: z fileAdd_files)
      qed
    qed
  qed
  have "fold (settle fetch blob images) (i # order) (jszip, logged) =
      fold (settle fetch blob images) order (jszip', logged')"
    by (simp add: step)
  moreover have "S \<union> set (i # order) = insert i S \<union> set order" by simp
  ultimately show ?case
    using Cons.IH [OF rest settled' inv', of logged'] by simp
qed

lemma downloadAllAsZip_empty:
  "downloadAllAsZip fetch blob generateAsync order [] w = w"
  by (simp add: downloadAllAsZip_def)

text \<open>
  Claim C9, as stated, fails: the archive keeps one entry per name. Two posters of the
  same file name give two results named \<open>poster_in_room_p.png\<close>; both are fetched, and
  the archive that is generated holds a single entry, the blob of the item that settled
  last, so the other fetched item is not in the archive.
\<close>

theorem downloadAllAsZip_same_name_counterexample:
  "map ResultImage.name (results (handleGenerate answering twoPosterState)) =
     map ResultImage.name sameNameResults \<and>
   retrieved fetchAll sampleBlob sameNameResults 0 = Some (js ''data:0'') \<and>
   retrieved fetchAll sampleBlob sameNameResults 1 = Some (js ''data:1'') \<and>
   archives (downloadAllAsZip fetchAll sampleBlob sampleGenerateAsync [0, 1] sameNameResults
      emptyBrowser) = [[js ''poster_in_room_p.png'' \<mapsto> ZipFile (js ''data:1'')]] \<and>
   [js ''poster_in_room_p.png'' \<mapsto> ZipFile (js ''data:1'')] (js ''poster_in_room_p.png'')
     \<noteq> Some (ZipFile (js ''data:0'')) \<and>
   dom [js ''poster_in_room_p.png'' \<mapsto> ZipFile (js ''data:1'')] = {js ''poster_in_room_p.png''}"
proof -
  have names: "map ResultImage.name (results (handleGenerate answering twoPosterState)) =
      map ResultImage.name sameNameResults"
    by (simp add: run_defs twoPosterState_def initialApp_def answering_def sameNameResults_def
          sampleImage_def toImageFile_def pngFile_def js_def)
  have r: "retrieved fetchAll sampleBlob sameNameResults 0 = Some (js ''data:0'')"
      "retrieved fetchAll sampleBlob sameNameResults 1 = Some (js ''data:1'')"
    by (simp_all add: retrieved_def fetchAll_def sampleBlob_def sameNameResults_def)
  have plain: "(0x2F :: code_unit) \<notin> set (js ''poster_in_room_p.png'')"
    by (simp add: js_def)
  have run: "archives (downloadAllAsZip fetchAll sampleBlob sampleGenerateAsync [0, 1]
      sameNameResults emptyBrowser) = [[js ''poster_in_room_p.png'' \<mapsto> ZipFile (js ''data:1'')]]"
    by (simp add: downloadAllAsZip_def settle_def at_index_def sameNameResults_def fetchAll_def
          sampleBlob_def sampleGenerateAsync_def emptyBrowser_def Let_def fileAdd_plain [OF plain])
  have differ: "js ''data:1'' \<noteq> js ''data:0''" by (simp add: js_def)
  show ?thesis using names r run differ by simp
qed

text \<open>
  Claim C9, amended. Packaging a non-empty list of results in which the items whose fetch
  succeeds have distinct names, in whatever order the fetches finish: exactly one archive
  is generated; its files are exactly the items whose fetch delivered a blob, each under
  its own name and with that blob (the other entries of the archive, if any, are the
  folders that JSZip adds for a name with a slash); an item whose fetch failed is not a
  file of the archive, and the messages logged are exactly one per such item, with its
  name.
\<close>

theorem downloadAllAsZip_omits_failed:
  assumes "images \<noteq> []" and "mset order = mset [0..<length images]"
    and "\<forall>i < length images. \<forall>j < length images.
        retrieved fetch blob images i \<noteq> None \<longrightarrow> retrieved fetch blob images j \<noteq> None \<longrightarrow>
        ResultImage.name (images ! i) = ResultImage.name (images ! j) \<longrightarrow> i = j"
  shows "\<exists>jszip logged.
           archives (downloadAllAsZip fetch blob generateAsync order images w) = archives w @ [jszip] \<and>
           consoleLog (downloadAllAsZip fetch blob generateAsync order images w) = consoleLog w @ logged \<and>
           (\<forall>n b. (jszip n = Some (ZipFile b)) =
              (\<exists>i < length images.
                 retrieved fetch blob images i = Some b \<and> ResultImage.name (images ! i) = n)) \<and>
           mset logged =
             image_mset (\<lambda>i. failedMessage (ResultImage.name (images ! i)))
               (filter_mset (\<lambda>i. retrieved fetch blob images i = None) (mset [0..<length images]))"
proof -
  let ?settled = "fold (settle fetch blob images) order (Map.empty, [])"
  have so: "set order = set [0..<length images]"
    using assms(2) by (rule mset_eq_setD)
  then have range: "\<forall>i \<in> set order. i < length images" by simp
  have a: "archives (downloadAllAsZip fetch blob generateAsync order images w) =
      archives w @ [fst ?settled]"
    using assms(1) by (simp add: downloadAllAsZip_def Let_def split: option.splits)
  have l: "consoleLog (downloadAllAsZip fetch blob generateAsync order images w) =
      consoleLog w @ snd ?settled"
    using assms(1) by (simp add: downloadAllAsZip_def Let_def split: option.splits)
  have g: "mset (snd ?settled) =
      image_mset (\<lambda>i. failedMessage (ResultImage.name (images ! i)))
        (filter_mset (\<lambda>i. retrieved fetch blob images i = None) (mset [0..<length images]))"
    using fold_settle_log [OF range, of fetch blob Map.empty "[]"] assms(2) by simp
  have "\<forall>n b. (fst ?settled n = Some (ZipFile b)) =
      (\<exists>i \<in> {} \<union> set order.
         retrieved fetch blob images i = Some b \<and> ResultImage.name (images ! i) = n)"
    by (rule fold_settle_files [OF range assms(3)]) simp_all
  then have z: "\<forall>n b. (fst ?settled n = Some (ZipFile b)) =
      (\<exists>i < length images.
         retrieved fetch blob images i = Some b \<and> ResultImage.name (images ! i) = n)"
    using so by (simp add: Bex_def)
  from a l z g show ?thesis by blast
qed

theorem downloadAllAsZip_omits_failed_witness:
  "sampleResults \<noteq> [] \<and> mset [2, 0, 1] = mset [0..<length sampleResults] \<and>
   retrieved sampleFetch sampleBlob sampleResults 0 = Some (js ''data:0'') \<and>
   retrieved sampleFetch sampleBlob sampleResults 1 = None \<and>
   retrieved sampleFetch sampleBlob sampleResults 2 = Some (js ''data:2'') \<and>
   distinct (map ResultImage.name sampleResults) \<and>
   archives (downloadAllAsZip sampleFetch sampleBlob sampleGenerateAsync [2, 0, 1] sampleResults
      emptyBrowser) =
     [[js ''anna_hat.png'' \<mapsto> ZipFile (js ''data:2''),
       js ''anna_dress.png'' \<mapsto> ZipFile (js ''data:0'')]] \<and>
   [js ''anna_hat.png'' \<mapsto> ZipFile (js ''data:2''),
    js ''anna_dress.png'' \<mapsto> ZipFile (js ''data:0'')] (js ''anna_coat.png'') = None \<and>
   consoleLog (downloadAllAsZip sampleFetch sampleBlob sampleGenerateAsync [2, 0, 1] sampleResults
      emptyBrowser) = [failedMessage (js ''anna_coat.png'')]"
proof -
  have h1: "sampleResults \<noteq> []" by (simp add: sampleResults_def)
  have h2: "mset [2, 0, 1] = mset [0..<length sampleResults]"
    by (simp add: sampleResults_def upt_rec [of 0] upt_rec [of 1] upt_rec [of 2])
  have d: "distinct (map ResultImage.name sampleResults)"
    by (simp add: sampleResults_def js_def)
  have h3: "\<forall>i < length sampleResults. \<forall>j < length sampleResults.
      retrieved sampleFetch sampleBlob sampleResults i \<noteq> None \<longrightarrow>
      retrieved sampleFetch sampleBlob sampleResults j \<noteq> None \<longrightarrow>
      ResultImage.name (sampleResults ! i) = ResultImage.name (sampleResults ! j) \<longrightarrow> i = j"
    using d by (auto simp: distinct_conv_nth)
  have r: "retrieved sampleFetch sampleBlob sampleResults 0 = Some (js ''data:0'')"
      "retrieved sampleFetch sampleBlob sampleResults 1 = None"
      "retrieved sampleFetch sampleBlob sampleResults 2 = Some (js ''data:2'')"
    by (simp_all add: retrieved_def sampleFetch_def sampleBlob_def sampleResults_def)
  have plain: "(0x2F :: code_unit) \<notin> set (js ''anna_hat.png'')"
      "(0x2F :: code_unit) \<notin> set (js ''anna_dress.png'')"
    by (simp_all add: js_def)
  have run: "downloadAllAsZip sampleFetch sampleBlob sampleGenerateAsync [2, 0, 1] sampleResults
      emptyBrowser =
     \<lparr>fetchCalls = [js ''data:0'', js ''data:1'', js ''data:2''],
      consoleLog = [failedMessage (js ''anna_coat.png'')],
      archives = [[js ''anna_hat.png'' \<mapsto> ZipFile (js ''data:2''),
                   js ''anna_dress.png'' \<mapsto> ZipFile (js ''data:0'')]],
      downloads = [(js ''virtual-try-on-results.zip'', 1)]\<rparr>"
    by (simp add: downloadAllAsZip_def settle_def at_index_def sampleResults_def sampleFetch_def
          sampleBlob_def sampleGenerateAsync_def emptyBrowser_def Let_def
          fileAdd_plain [OF plain(1)] fileAdd_plain [OF plain(2)])
  have coat: "js ''anna_coat.png'' \<noteq> js ''anna_hat.png''"
      "js ''anna_coat.png'' \<noteq> js ''anna_dress.png''"
    by (simp_all add: js_def)
  show ?thesis
    using downloadAllAsZip_omits_failed [OF h1 h2 h3, of sampleGenerateAsync emptyBrowser]
      h1 h2 r d run coat
    by simp
qed

end
